theory Spec2Isabelle
  imports Complex_Main "HOL-Library.Char_ord" "HOL-Library.List_Lexorder"
begin

section \<open>The R script (IBM-HR.R)\<close>

text \<open>
  R functions are vectorised; the script applies each of its helpers to the elements of
  a column. The helpers are given here on one element, the columns the script builds
  with them as maps over the column. R's numeric labels \<open>1\<close> and \<open>0\<close> are the
  doubles 1.0 and 0.0 and are modelled by the integers they denote. Fitted
  probabilities are doubles in the unit interval; comparing one of them with the
  threshold is exact, so they are modelled by the real number they denote (a missing
  value \<open>NA\<close> is no probability and is not modelled).
\<close>

text \<open>\<^verbatim>\<open>recode_y <- function(x){ return(ifelse(x == "No", 1, 0)) }\<close>\<close>

definition recode_y :: "string \<Rightarrow> int" where
  "recode_y x = (if x = ''No'' then 1 else 0)"

text \<open>\<^verbatim>\<open>dataset2['Attrition2'] <- sapply(dataset2['Attrition'], recode_y)\<close>\<close>

definition Attrition2 :: "string list \<Rightarrow> int list" where
  "Attrition2 attrition = map recode_y attrition"

text \<open>\<^verbatim>\<open>assign_label <- function(x, th){ return(ifelse(x > th, 1, 0)) }\<close>\<close>

definition assign_label :: "real \<Rightarrow> real \<Rightarrow> int" where
  "assign_label x th = (if x > th then 1 else 0)"

text \<open>\<^verbatim>\<open>recoded_fitted <- sapply(results, assign_label, 0.5)\<close>\<close>

definition recoded_fitted :: "real list \<Rightarrow> int list" where
  "recoded_fitted results = map (\<lambda>x. assign_label x 0.5) results"

text \<open>
  R's \<open>==\<close> on two vectors compares them element by element and recycles the shorter
  one; the result is empty when either operand is.
\<close>

definition r_eq :: "'a list \<Rightarrow> 'a list \<Rightarrow> bool list" where
  "r_eq xs ys =
     (if xs = [] \<or> ys = [] then []
      else map (\<lambda>i. xs ! (i mod length xs) = ys ! (i mod length ys))
             [0 ..< max (length xs) (length ys)])"

text \<open>The inner helper of \<open>compare_lists\<close>: \<^verbatim>\<open>check <- function(x){ return(ifelse(x, 1, 0)) }\<close>\<close>

definition check :: "bool \<Rightarrow> int" where
  "check x = (if x then 1 else 0)"

definition compare_lists :: "'a list \<Rightarrow> 'a list \<Rightarrow> int list" where
  "compare_lists double1 double2 = map check (r_eq double1 double2)"

section \<open>The notebook (Attrition\_Risk.ipynb): thresholding fitted probabilities\<close>

text \<open>
  \<^verbatim>\<open>th = 0.5\<close>
  \<^verbatim>\<open>predictions_results = predictions_test.apply(lambda x: 0 if x > th else 1)\<close>
  The lambda is \<open>predictions_label\<close>; the training-set cell
  \<open>fitted_xtrain2_recoded\<close> applies the same lambda with the literal 0.5.
\<close>

definition th :: real where
  "th = 0.5"

definition predictions_label :: "real \<Rightarrow> int" where
  "predictions_label x = (if x > th then 0 else 1)"

definition predictions_results :: "real list \<Rightarrow> int list" where
  "predictions_results predictions_test = map predictions_label predictions_test"

text \<open>\<^verbatim>\<open>predictions_results.apply(lambda x: 'No' if x == 0 else 'Yes')\<close>\<close>

definition predictions_results_recoded :: "int list \<Rightarrow> string list" where
  "predictions_results_recoded rs = map (\<lambda>x. if x = 0 then ''No'' else ''Yes'') rs"

section \<open>The notebook: errors\<close>

text \<open>
  A notebook cell either runs to its end or stops with a Python exception; a cell's
  result is \<open>Inr\<close> of its value or \<open>Inl\<close> of the exception.
\<close>

datatype py_error = ValueError | KeyError | IndexError | NameError | OverflowError

text \<open>Running one step after another: an exception in the first step ends the cell.\<close>

definition py_bind :: "py_error + 'a \<Rightarrow> ('a \<Rightarrow> py_error + 'b) \<Rightarrow> py_error + 'b" where
  "py_bind r f = (case r of Inl e \<Rightarrow> Inl e | Inr v \<Rightarrow> f v)"

section \<open>The notebook: confusion matrix and accuracy\<close>

text \<open>
  \<^verbatim>\<open>attr_forest_CM = confusion_matrix(ytest, attr_forest.predict(xtest))\<close>
  The notebook calls scikit-learn's \<open>confusion_matrix\<close> with no \<open>labels\<close> argument.
  The library then takes as labels the sorted distinct values that occur in either
  vector, and entry \<open>(i, j)\<close> counts the samples whose actual label is the \<open>i\<close>-th and
  whose predicted label is the \<open>j\<close>-th label. Vectors of different lengths are refused
  with a \<open>ValueError\<close>. The matrix is a list of rows.
\<close>

definition unique_labels :: "'a::linorder list \<Rightarrow> 'a list \<Rightarrow> 'a list" where
  "unique_labels y_true y_pred = sort (remdups (y_true @ y_pred))"

definition cm_count :: "'a list \<Rightarrow> 'a list \<Rightarrow> 'a \<Rightarrow> 'a \<Rightarrow> int" where
  "cm_count y_true y_pred a b =
     int (length (filter (\<lambda>(t, p). t = a \<and> p = b) (zip y_true y_pred)))"

definition confusion_matrix :: "'a::linorder list \<Rightarrow> 'a list \<Rightarrow> py_error + int list list" where
  "confusion_matrix y_true y_pred =
     (if length y_true \<noteq> length y_pred then Inl ValueError
      else let labels = unique_labels y_true y_pred
           in Inr (map (\<lambda>a. map (\<lambda>b. cm_count y_true y_pred a b) labels) labels))"

text \<open>Indexing a matrix, \<^verbatim>\<open>CM[i, j]\<close>: out of range is an \<open>IndexError\<close>.\<close>

definition cm_at :: "int list list \<Rightarrow> nat \<Rightarrow> nat \<Rightarrow> py_error + int" where
  "cm_at m i j =
     (if i < length m
      then (if j < length (m ! i) then Inr (m ! i ! j) else Inl IndexError)
      else Inl IndexError)"

text \<open>
  Dividing a count by a length. By zero there is no quotient (R answers \<open>NaN\<close>, NumPy
  \<open>nan\<close> or \<open>inf\<close> with a warning, plain Python raises); the model answers \<open>None\<close>.
  Otherwise the quotient is the exact one; the scripts' is the double nearest to it.
\<close>

definition true_div :: "int \<Rightarrow> nat \<Rightarrow> rat option" where
  "true_div a n = (if n = 0 then None else Some (of_int a / of_nat n))"

text \<open>
  \<^verbatim>\<open>tp = attr_forest_CM[1,1]\<close>
  \<^verbatim>\<open>tn = attr_forest_CM[0,0]\<close>
  \<^verbatim>\<open>fm_test_acc = (tp + tn)/xtest.shape[0]\<close>
  The second argument is the number of rows of \<open>xtest\<close>.
\<close>

definition fm_test_acc :: "int list list \<Rightarrow> nat \<Rightarrow> py_error + rat option" where
  "fm_test_acc attr_forest_CM xtest_rows =
     py_bind (cm_at attr_forest_CM 1 1) (\<lambda>tp.
     py_bind (cm_at attr_forest_CM 0 0) (\<lambda>tn.
       Inr (true_div (tp + tn) xtest_rows)))"

text \<open>
  The accuracy computed directly, as both scripts do it from the vector of 0/1 marks:
  \<^verbatim>\<open>sum(tempor)/length(tempor)\<close> in the R script,
  \<^verbatim>\<open>sum(recodedpreds)/len(recodedpreds)\<close> in the notebook.
\<close>

definition mark_accuracy :: "int list \<Rightarrow> rat option" where
  "mark_accuracy tempor = true_div (sum_list tempor) (length tempor)"

text \<open>
  \<^verbatim>\<open>preds = newmodel.predict(xtest) == ytest\<close>
  \<^verbatim>\<open>recodedpreds = preds.apply(lambda x: 1 if x else 0)\<close>
  Comparing an array with a series of another length is a \<open>ValueError\<close>.
\<close>

definition recodedpreds :: "'a list \<Rightarrow> 'a list \<Rightarrow> py_error + int list" where
  "recodedpreds predicted ytest =
     (if length predicted \<noteq> length ytest then Inl ValueError
      else Inr (map (\<lambda>(p, y). if p = y then 1 else 0) (zip predicted ytest)))"

section \<open>Double-precision numbers\<close>

text \<open>
  Python's \<open>float\<close> is the IEEE 754 double. A double is modelled by the rational it
  denotes, and an operation on doubles by the exact operation followed by rounding to
  the nearest double, ties to the even significand (53 bits; below \<open>2^-1022\<close> the
  doubles are the multiples of \<open>2^-1074\<close>). A result of \<open>2^1024\<close> or more, one whose
  exponent is 1024 or more, stands for an overflow.
\<close>

text \<open>The number of binary digits of a positive integer (0 for the others).\<close>

function bit_length :: "int \<Rightarrow> int" where
  "bit_length n = (if n \<le> 0 then 0 else 1 + bit_length (n div 2))"
  by pat_completeness auto
termination
  by (relation "measure nat") auto

declare bit_length.simps [simp del]

text \<open>For a positive \<open>x\<close>, the exponent \<open>e\<close> with \<open>2^e \<le> x < 2^(e+1)\<close>.\<close>

definition float_exponent :: "rat \<Rightarrow> int" where
  "float_exponent x =
     (let (a, b) = quotient_of x;
          c = bit_length a - bit_length b
      in if 2 powi c \<le> x then c else c - 1)"

definition round_half_even :: "rat \<Rightarrow> int" where
  "round_half_even q =
     (let f = \<lfloor>q\<rfloor>; d = q - of_int f
      in if d < 1 / 2 then f else if 1 / 2 < d then f + 1 else if even f then f else f + 1)"

definition double_overflow :: "rat \<Rightarrow> bool" where
  "double_overflow x = (1024 \<le> float_exponent \<bar>x\<bar>)"

definition round_double :: "rat \<Rightarrow> rat" where
  "round_double x =
     (if x = 0 then 0
      else let m = \<bar>x\<bar>;
               e = max (float_exponent m) (- 1022);
               ulp = 2 powi (e - 52)
           in sgn x * of_int (round_half_even (m / ulp)) * ulp)"

section \<open>The notebook: splitting into training and test sets\<close>

text \<open>
  \<^verbatim>\<open>xtrain, xtest, ytrain, ytest = train_test_split(predictors, response, test_size = 0.2, random_state = 0)\<close>
  \<^verbatim>\<open>xtrain, xtest, ytrain, ytest = train_test_split(newPreds, newY, test_size = 0.25, random_state = 0)\<close>
  The notebook calls scikit-learn's \<open>train_test_split\<close> with a fractional
  \<open>test_size\<close>, no \<open>train_size\<close> and an integer \<open>random_state\<close>. The library
  \<^item> refuses arrays of different lengths and a fraction outside the open unit interval;
  \<^item> sets \<open>n_test = ceil(test_size * n_samples)\<close> and \<open>n_train = n_samples - n_test\<close>,
    and refuses an empty training set;
  \<^item> draws one permutation of the row numbers from its random generator; the first
    \<open>n_test\<close> of them are the test rows, the next \<open>n_train\<close> the training rows;
  \<^item> returns each array indexed by the training rows and by the test rows.

  The generator is NumPy's and is a parameter of the model: \<open>RandomState seed\<close> is the
  state of a generator seeded with \<open>seed\<close>, and \<open>permutation g n\<close> the permutation
  of \<open>0, ..., n - 1\<close> drawn in state \<open>g\<close>. With \<open>random_state = None\<close> the library
  draws from NumPy's global generator, whose state depends on what ran before.
  The product \<open>test_size * n_samples\<close> is formed in double precision, and the model
  rounds as Python does: \<open>test_size\<close> is the number written in the call and the double
  Python holds for it is \<open>round_double test_size\<close>; the row count is converted to a
  double, which is an \<open>OverflowError\<close> when it does not fit; the product of the two is
  rounded to a double again, and its ceiling is \<open>n_test\<close>. (100 rows at 0.07 give 8
  test rows, since the double product is just above 7.)
\<close>

record 'g numpy_random =
  RandomState :: "int \<Rightarrow> 'g"
  permutation :: "'g \<Rightarrow> nat \<Rightarrow> nat list"

definition check_random_state :: "'g numpy_random \<Rightarrow> 'g \<Rightarrow> int option \<Rightarrow> 'g" where
  "check_random_state np global_state random_state =
     (case random_state of None \<Rightarrow> global_state | Some seed \<Rightarrow> RandomState np seed)"

text \<open>\<^verbatim>\<open>n_test = ceil(test_size * n_samples)\<close>\<close>

definition n_test_rows :: "nat \<Rightarrow> rat \<Rightarrow> nat" where
  "n_test_rows n_samples test_size =
     nat \<lceil>round_double (round_double test_size * round_double (of_nat n_samples))\<rceil>"

definition validate_shuffle_split :: "nat \<Rightarrow> rat \<Rightarrow> py_error + nat \<times> nat" where
  "validate_shuffle_split n_samples test_size =
     (if round_double test_size \<le> 0 \<or> 1 \<le> round_double test_size then Inl ValueError
      else if double_overflow (round_double (of_nat n_samples)) then Inl OverflowError
      else let n_test = n_test_rows n_samples test_size;
               n_train = n_samples - n_test
           in if n_train = 0 then Inl ValueError else Inr (n_train, n_test))"

text \<open>The pair returned is \<open>(ind_train, ind_test)\<close>.\<close>

definition shuffle_split ::
  "'g numpy_random \<Rightarrow> 'g \<Rightarrow> nat \<Rightarrow> rat \<Rightarrow> int option \<Rightarrow> py_error + nat list \<times> nat list" where
  "shuffle_split np global_state n_samples test_size random_state =
     (case validate_shuffle_split n_samples test_size of
        Inl e \<Rightarrow> Inl e
      | Inr (n_train, n_test) \<Rightarrow>
          let rng = check_random_state np global_state random_state;
              perm = permutation np rng n_samples
          in Inr (take n_train (drop n_test perm), take n_test perm))"

text \<open>Indexing an array by a list of row numbers; a row number out of range is an error.\<close>

definition safe_indexing :: "'a list \<Rightarrow> nat list \<Rightarrow> py_error + 'a list" where
  "safe_indexing xs idx =
     (if list_all (\<lambda>i. i < length xs) idx then Inr (map (\<lambda>i. xs ! i) idx)
      else Inl IndexError)"

text \<open>The result is \<open>(xtrain, xtest, ytrain, ytest)\<close>.\<close>

definition train_test_split ::
  "'g numpy_random \<Rightarrow> 'g \<Rightarrow> 'a list \<Rightarrow> 'b list \<Rightarrow> rat \<Rightarrow> int option
     \<Rightarrow> py_error + 'a list \<times> 'a list \<times> 'b list \<times> 'b list" where
  "train_test_split np global_state X y test_size random_state =
     (if length X \<noteq> length y then Inl ValueError
      else py_bind (shuffle_split np global_state (length X) test_size random_state)
        (\<lambda>(ind_train, ind_test).
           py_bind (safe_indexing X ind_train) (\<lambda>xtrain.
           py_bind (safe_indexing X ind_test) (\<lambda>xtest.
           py_bind (safe_indexing y ind_train) (\<lambda>ytrain.
           py_bind (safe_indexing y ind_test) (\<lambda>ytest.
             Inr (xtrain, xtest, ytrain, ytest)))))))"

text \<open>
  Two stand-ins for the generator, for the examples below: the first returns the row
  numbers in reverse order in whatever state, the second in a state-dependent order.
\<close>

definition reversing_generator :: "int numpy_random" where
  "reversing_generator =
     \<lparr>RandomState = (\<lambda>seed. seed), permutation = (\<lambda>g n. rev [0 ..< n])\<rparr>"

definition two_state_generator :: "int numpy_random" where
  "two_state_generator =
     \<lparr>RandomState = (\<lambda>seed. seed),
      permutation = (\<lambda>g n. if g = 0 then [0 ..< n] else rev [0 ..< n])\<rparr>"

section \<open>The notebook: the loaded table and its columns\<close>

text \<open>
  \<^verbatim>\<open>empattr = pd.read_csv('WA_Fn-UseC_-HR-Employee-Attrition.csv')\<close>
  A data frame is its columns in order, each a name and the column's values. A column
  read from a CSV file holds integers (dtype \<open>int64\<close>), floating-point numbers
  (\<open>float64\<close>, here the rationals they denote) or strings (dtype \<open>object\<close>).
  \<open>read_csv\<close> gives every column a name of its own.
\<close>

datatype column = IntCol "int list" | FloatCol "rat list" | ObjCol "string list"

type_synonym dataframe = "(string \<times> column) list"

definition columns :: "dataframe \<Rightarrow> string list" where
  "columns df = map fst df"

text \<open>\<^verbatim>\<open>df[c]\<close> for one column name, and \<^verbatim>\<open>df[[c1, c2, ...]]\<close> for a list of names.\<close>

definition getitem :: "dataframe \<Rightarrow> string \<Rightarrow> py_error + column" where
  "getitem df c = (case map_of df c of None \<Rightarrow> Inl KeyError | Some col \<Rightarrow> Inr col)"

definition getitem_list :: "dataframe \<Rightarrow> string list \<Rightarrow> py_error + dataframe" where
  "getitem_list df cs =
     (if list_all (\<lambda>c. c \<in> set (columns df)) cs
      then Inr (map (\<lambda>c. (c, the (map_of df c))) cs)
      else Inl KeyError)"

text \<open>\<^verbatim>\<open>df[c] = values\<close> for a column that exists: the column is replaced where it stands.\<close>

definition setitem :: "dataframe \<Rightarrow> string \<Rightarrow> column \<Rightarrow> dataframe" where
  "setitem df c new = map (\<lambda>(n, old). if n = c then (n, new) else (n, old)) df"

text \<open>\<^verbatim>\<open>df.drop(columns = cs)\<close> returns a new frame; a name that is no column is a \<open>KeyError\<close>.\<close>

definition drop_columns :: "dataframe \<Rightarrow> string list \<Rightarrow> py_error + dataframe" where
  "drop_columns df cs =
     (if list_all (\<lambda>c. c \<in> set (columns df)) cs
      then Inr (filter (\<lambda>(n, col). n \<notin> set cs) df)
      else Inl KeyError)"

section \<open>The notebook: classifying the columns\<close>

fun is_object :: "column \<Rightarrow> bool" where
  "is_object (ObjCol vs) = True"
| "is_object (IntCol vs) = False"
| "is_object (FloatCol vs) = False"

text \<open>\<^verbatim>\<open>objcols = [c for c in empattr.columns if empattr[c].dtype == 'O']\<close>\<close>

definition objcols :: "dataframe \<Rightarrow> string list" where
  "objcols empattr =
     filter (\<lambda>c. case map_of empattr c of None \<Rightarrow> False | Some col \<Rightarrow> is_object col)
       (columns empattr)"

text \<open>
  \<^verbatim>\<open>catcols = ["Education", "EnvironmentSatisfaction", "JobInvolvement", "JobSatisfaction", "PerformanceRating", "RelationshipSatisfaction", "WorkLifeBalance"]\<close>
\<close>

definition catcols :: "string list" where
  "catcols = [''Education'', ''EnvironmentSatisfaction'', ''JobInvolvement'',
     ''JobSatisfaction'', ''PerformanceRating'', ''RelationshipSatisfaction'',
     ''WorkLifeBalance'']"

text \<open>
  \<^verbatim>\<open># Result is an empty set\<close>
  \<^verbatim>\<open>set(objcols).intersection(set(catcols))\<close>
  The cell is this expression alone: the notebook displays its value and goes on.
\<close>

definition overlap :: "dataframe \<Rightarrow> string set" where
  "overlap empattr = set (objcols empattr) \<inter> set catcols"

text \<open>
  \<^verbatim>\<open>empattr_numerical_cols = list(set(empattr.columns.tolist()).difference(set(objcols + catcols)))\<close>
  The list has the set's elements in no particular order; the model keeps the set.
\<close>

definition empattr_numerical_cols :: "dataframe \<Rightarrow> string set" where
  "empattr_numerical_cols empattr = set (columns empattr) - set (objcols empattr @ catcols)"

text \<open>
  The cells of the classifier in the order of the notebook. The one that can stop the
  run is the selection \<^verbatim>\<open>empattr[objcols + catcols]\<close> (the conversion of the selected
  columns with \<open>astype(object)\<close> that follows only feeds the descriptive statistics and
  is left out).
\<close>

record classified =
  shown_overlap :: "string set"
  selected :: dataframe
  numerical :: "string set"

definition classify_columns :: "dataframe \<Rightarrow> py_error + classified" where
  "classify_columns empattr =
     (let shown = overlap empattr
      in py_bind (getitem_list empattr (objcols empattr @ catcols)) (\<lambda>sel.
           Inr \<lparr>shown_overlap = shown, selected = sel,
                numerical = empattr_numerical_cols empattr\<rparr>))"

text \<open>
  A small table with the columns the notebook names, for the examples below.
\<close>

definition sample_empattr :: dataframe where
  "sample_empattr =
     [(''Age'', IntCol [41, 49, 37, 33]),
      (''Attrition'', ObjCol [''Yes'', ''No'', ''Yes'', ''No'']),
      (''DistanceFromHome'', IntCol [1, 8, 2, 3]),
      (''Education'', IntCol [2, 1, 2, 4]),
      (''EmployeeCount'', IntCol [1, 1, 1, 1]),
      (''EnvironmentSatisfaction'', IntCol [2, 3, 4, 4]),
      (''Gender'', ObjCol [''Female'', ''Male'', ''Male'', ''Female'']),
      (''JobInvolvement'', IntCol [3, 2, 2, 3]),
      (''JobSatisfaction'', IntCol [4, 2, 3, 3]),
      (''PerformanceRating'', IntCol [3, 4, 3, 3]),
      (''RelationshipSatisfaction'', IntCol [1, 4, 2, 3]),
      (''StandardHours'', IntCol [80, 80, 80, 80]),
      (''WorkLifeBalance'', IntCol [1, 3, 3, 3]),
      (''YearsSinceLastPromotion'', IntCol [0, 1, 0, 3])]"

text \<open>The same table with the education level spelled out, which makes the column a string column.\<close>

definition sample_education_text :: dataframe where
  "sample_education_text =
     setitem sample_empattr ''Education'' (ObjCol [''College'', ''Below College'', ''College'', ''Master''])"

section \<open>The notebook: the encoder of the full-feature path\<close>

text \<open>
  \<^verbatim>\<open>LabelEncoder().fit_transform(column)\<close> is scikit-learn's: the classes are the
  sorted distinct values of the column, and every value is replaced by the position of
  its class. Strings are ordered as Python orders them, character by character.
\<close>

primrec index_of :: "'a list \<Rightarrow> 'a \<Rightarrow> nat" where
  "index_of [] x = 0"
| "index_of (c # cs) x = (if c = x then 0 else Suc (index_of cs x))"

definition label_codes :: "'a::linorder list \<Rightarrow> int list" where
  "label_codes vs = (let classes = sort (remdups vs) in map (\<lambda>v. int (index_of classes v)) vs)"

fun fit_transform :: "column \<Rightarrow> column" where
  "fit_transform (ObjCol vs) = IntCol (label_codes vs)"
| "fit_transform (IntCol vs) = IntCol (label_codes vs)"
| "fit_transform (FloatCol vs) = IntCol (label_codes vs)"

text \<open>
  The notebook's variables \<open>empattr\<close> and \<open>newdf\<close> name data-frame objects, and an
  assignment to a column changes the object, whatever variable names it. The objects
  live in a store, a list in which an object's address is its position; a variable
  holds an address. \<open>newdf\<close> is unbound until its first assignment.
\<close>

record kernel =
  store :: "dataframe list"
  empattr :: nat
  newdf :: "nat option"

definition deref :: "kernel \<Rightarrow> nat option \<Rightarrow> py_error + dataframe" where
  "deref k v =
     (case v of None \<Rightarrow> Inl NameError
      | Some a \<Rightarrow> if a < length (store k) then Inr (store k ! a) else Inl NameError)"

text \<open>\<^verbatim>\<open>newdf = empattr.copy()\<close>: a new object with the same contents.\<close>

definition cell_copy :: "kernel \<Rightarrow> py_error + kernel" where
  "cell_copy k =
     py_bind (deref k (Some (empattr k))) (\<lambda>df.
       Inr (k\<lparr>store := store k @ [df], newdf := Some (length (store k))\<rparr>))"

text \<open>\<^verbatim>\<open>newdf = newdf.drop(columns = ['EmployeeCount','StandardHours'])\<close>: again a new object.\<close>

definition cell_drop :: "kernel \<Rightarrow> py_error + kernel" where
  "cell_drop k =
     py_bind (deref k (newdf k)) (\<lambda>df.
     py_bind (drop_columns df [''EmployeeCount'', ''StandardHours'']) (\<lambda>dropped.
       Inr (k\<lparr>store := store k @ [dropped], newdf := Some (length (store k))\<rparr>)))"

text \<open>
  \<^verbatim>\<open>for c in recodecols:\<close>
  \<^verbatim>\<open>    newdf[c] = LabelEncoder().fit_transform(newdf[c])\<close>
  Each round reads a column of the object at address \<open>a\<close> and writes its codes back
  into the same object.
\<close>

fun encode_loop :: "string list \<Rightarrow> nat \<Rightarrow> dataframe list \<Rightarrow> py_error + dataframe list" where
  "encode_loop [] a st = Inr st"
| "encode_loop (c # cs) a st =
     py_bind (getitem (st ! a) c) (\<lambda>col.
       encode_loop cs a (st[a := setitem (st ! a) c (fit_transform col)]))"

text \<open>\<^verbatim>\<open>recodecols = catcols + objcols\<close>, where \<open>objcols\<close> is the list the classifier computed.\<close>

definition cell_encode :: "string list \<Rightarrow> kernel \<Rightarrow> py_error + kernel" where
  "cell_encode objcols_list k =
     (let recodecols = catcols @ objcols_list
      in case newdf k of
           None \<Rightarrow> Inl NameError
         | Some a \<Rightarrow>
             if a < length (store k)
             then py_bind (encode_loop recodecols a (store k)) (\<lambda>st. Inr (k\<lparr>store := st\<rparr>))
             else Inl NameError)"

text \<open>The three cells in the notebook's order, \<open>objcols\<close> being computed from the loaded table.\<close>

definition full_feature_encoding :: "kernel \<Rightarrow> py_error + kernel" where
  "full_feature_encoding k =
     py_bind (deref k (Some (empattr k))) (\<lambda>table.
     py_bind (cell_copy k) (\<lambda>k1.
     py_bind (cell_drop k1) (\<lambda>k2.
       cell_encode (objcols table) k2)))"

text \<open>
  \<^verbatim>\<open>newPreds = newdf.iloc[:, newdf.columns != 'Attrition']\<close>
  \<^verbatim>\<open>newY = newdf['Attrition']\<close>
\<close>

definition newPreds :: "kernel \<Rightarrow> py_error + dataframe" where
  "newPreds k = py_bind (deref k (newdf k)) (\<lambda>df. Inr (filter (\<lambda>(n, col). n \<noteq> ''Attrition'') df))"

definition newY :: "kernel \<Rightarrow> py_error + column" where
  "newY k = py_bind (deref k (newdf k)) (\<lambda>df. getitem df ''Attrition'')"

text \<open>The kernel right after loading: one object, named \<open>empattr\<close>.\<close>

definition loaded :: "dataframe \<Rightarrow> kernel" where
  "loaded df = \<lparr>store = [df], empattr = 0, newdf = None\<rparr>"

section \<open>Results\<close>

subsection \<open>Sequencing\<close>

lemma py_bind_simps [simp]: "py_bind (Inl e) f = Inl e" "py_bind (Inr v) f = f v"
  by (simp_all add: py_bind_def)

lemma py_bind_Inr:
  assumes "py_bind r f = Inr v"
  obtains u where "r = Inr u" "f u = Inr v"
  using assms by (cases r) simp_all

subsection \<open>Counting lemmas for the confusion matrix\<close>

lemma pair_counts_diag:
  fixes l0 l1 :: 'a
  assumes "l0 \<noteq> l1" "\<forall>(t, p) \<in> set zs. t \<in> {l0, l1} \<and> p \<in> {l0, l1}"
  shows "length (filter (\<lambda>(t, p). t = l1 \<and> p = l1) zs) + length (filter (\<lambda>(t, p). t = l0 \<and> p = l0) zs)
         = length (filter (\<lambda>(t, p). t = p) zs)"
  using assms by (induction zs) auto

lemma r_eq_same_length:
  assumes "length xs = length ys"
  shows "r_eq xs ys = map (\<lambda>(x, y). x = y) (zip xs ys)"
proof (cases "xs = []")
  case True
  then show ?thesis by (simp add: r_eq_def)
next
  case False
  with assms have ne: "ys \<noteq> []" by auto
  have "map (\<lambda>i. xs ! (i mod length xs) = ys ! (i mod length ys)) [0 ..< length xs]
        = map (\<lambda>(x, y). x = y) (zip xs ys)"
    using assms by (intro nth_equalityI) simp_all
  with False ne assms show ?thesis by (simp add: r_eq_def)
qed

lemma sum_list_marks:
  "sum_list (map check (map (\<lambda>(x, y). x = y) zs)) = int (length (filter (\<lambda>(x, y). x = y) zs))"
  by (induction zs) (simp_all add: check_def split: prod.splits)

lemma compare_lists_count:
  assumes "length xs = length ys"
  shows "sum_list (compare_lists xs ys) = int (length (filter (\<lambda>(x, y). x = y) (zip xs ys)))"
    and "length (compare_lists xs ys) = length xs"
  using assms
  by (simp_all add: compare_lists_def r_eq_same_length sum_list_marks del: map_map)

lemma recodedpreds_marks:
  assumes "length predicted = length ytest"
  shows "recodedpreds predicted ytest = Inr (compare_lists predicted ytest)"
proof -
  have "map (\<lambda>(p, y). if p = y then 1 else 0) zs = map check (map (\<lambda>(x, y). x = y) zs)"
    for zs :: "('a \<times> 'a) list"
    by (induction zs) (simp_all add: check_def split: prod.splits)
  with assms show ?thesis
    by (simp add: recodedpreds_def compare_lists_def r_eq_same_length del: map_map)
qed

lemma two_labels:
  assumes "length (unique_labels ys ps) = 2"
  obtains l0 l1 where "unique_labels ys ps = [l0, l1]" "l0 \<noteq> l1" "set ys \<union> set ps = {l0, l1}"
proof -
  from assms obtain l0 l1 where e: "unique_labels ys ps = [l0, l1]"
    by (auto simp: length_Suc_conv numeral_2_eq_2)
  have d: "distinct (unique_labels ys ps)" by (simp add: unique_labels_def)
  have s: "set (unique_labels ys ps) = set ys \<union> set ps" by (simp add: unique_labels_def)
  from e d s show ?thesis using that by auto
qed

lemma zip_in_labels:
  assumes "set ys \<union> set ps = L"
  shows "\<forall>(t, p) \<in> set (zip ys ps). t \<in> L \<and> p \<in> L"
  using assms by (auto dest: set_zip_leftD set_zip_rightD)

lemma delta_pair_sum:
  fixes A :: "'a set"
  assumes "finite A" "t \<in> A" "p \<in> A"
  shows "(\<Sum>a\<in>A. \<Sum>b\<in>A. (if t = a \<and> p = b then 1 else 0 :: int)) = 1"
proof -
  have "(\<Sum>a\<in>A. \<Sum>b\<in>A. (if t = a \<and> p = b then 1 else 0 :: int))
        = (\<Sum>a\<in>A. if t = a then (\<Sum>b\<in>A. if p = b then 1 else 0) else 0)"
    by (intro sum.cong) simp_all
  also have "\<dots> = (\<Sum>b\<in>A. if p = b then 1 else 0)"
    using assms by simp
  also have "\<dots> = 1"
    using assms by simp
  finally show ?thesis .
qed

lemma pair_counts_total:
  fixes A :: "'a set"
  assumes "finite A" "\<forall>(t, p) \<in> set zs. t \<in> A \<and> p \<in> A"
  shows "(\<Sum>a\<in>A. \<Sum>b\<in>A. int (length (filter (\<lambda>(t, p). t = a \<and> p = b) zs))) = int (length zs)"
  using assms(2)
proof (induction zs)
  case Nil
  then show ?case by simp
next
  case (Cons z zs)
  obtain t p where z: "z = (t, p)" by (cases z)
  with Cons.prems have tp: "t \<in> A" "p \<in> A" by auto
  have "(\<Sum>a\<in>A. \<Sum>b\<in>A. int (length (filter (\<lambda>(t, p). t = a \<and> p = b) (z # zs))))
        = (\<Sum>a\<in>A. \<Sum>b\<in>A. ((if t = a \<and> p = b then 1 else 0)
             + int (length (filter (\<lambda>(t, p). t = a \<and> p = b) zs))))"
    by (intro sum.cong) (simp_all add: z)
  also have "\<dots> = (\<Sum>a\<in>A. \<Sum>b\<in>A. (if t = a \<and> p = b then 1 else 0))
             + (\<Sum>a\<in>A. \<Sum>b\<in>A. int (length (filter (\<lambda>(t, p). t = a \<and> p = b) zs)))"
    by (simp add: sum.distrib)
  also have "\<dots> = 1 + int (length zs)"
    using Cons delta_pair_sum [OF assms(1) tp] by simp
  finally show ?case by simp
qed

lemma sum_list_rows: "sum_list (concat xss) = sum_list (map sum_list xss)" for xss :: "int list list"
  by (induction xss) simp_all

lemma sum_list_matrix:
  assumes "distinct L"
  shows "sum_list (concat (map (\<lambda>a. map (\<lambda>b. f a b) L) L)) = (\<Sum>a\<in>set L. \<Sum>b\<in>set L. (f a b :: int))"
  using assms by (simp add: sum_list_rows comp_def sum_list_distinct_conv_sum_set)

lemma unique_labels_props:
  "distinct (unique_labels ys ps)" "set (unique_labels ys ps) = set ys \<union> set ps"
  "length (unique_labels ys ps) = card (set ys \<union> set ps)"
  by (simp_all add: unique_labels_def length_remdups_card_conv)

subsection \<open>Accuracy from the confusion matrix\<close>

text \<open>
  Claim C2. For every 2x2 confusion matrix computed from actual and predicted label
  vectors of length \<open>N\<close>, the accuracy \<open>(tp + tn) / N\<close> read off the matrix (\<open>tp\<close> at
  row 1, column 1 and \<open>tn\<close> at row 0, column 0) is the fraction computed directly,
  \<open>count(predicted == actual) / N\<close>, as \<open>compare_lists\<close> and the division after it do
  in the R script, and as the notebook's own \<open>recodedpreds\<close> does. The predictions are
  one per row of \<open>xtest\<close>, so \<open>N\<close> is their number.
\<close>

theorem accuracy_from_confusion_matrix:
  assumes cm: "confusion_matrix ytest predicted = Inr attr_forest_CM"
    and two: "length attr_forest_CM = 2"
  shows "fm_test_acc attr_forest_CM (length predicted)
         = Inr (mark_accuracy (compare_lists predicted ytest))
       \<and> mark_accuracy (compare_lists predicted ytest)
         = Some (of_nat (length (filter (\<lambda>(p, y). p = y) (zip predicted ytest)))
                 / of_nat (length predicted))
       \<and> recodedpreds predicted ytest = Inr (compare_lists predicted ytest)"
proof -
  from cm have len: "length ytest = length predicted"
    by (auto simp: confusion_matrix_def split: if_splits)
  from cm len have m: "attr_forest_CM =
      map (\<lambda>a. map (\<lambda>b. cm_count ytest predicted a b) (unique_labels ytest predicted))
        (unique_labels ytest predicted)"
    by (simp add: confusion_matrix_def Let_def)
  with two have "length (unique_labels ytest predicted) = 2" by simp
  then obtain l0 l1 where ls: "unique_labels ytest predicted = [l0, l1]" "l0 \<noteq> l1"
    "set ytest \<union> set predicted = {l0, l1}"
    by (rule two_labels)
  from m ls have tp: "cm_at attr_forest_CM (Suc 0) (Suc 0) = Inr (cm_count ytest predicted l1 l1)"
    and tn: "cm_at attr_forest_CM 0 0 = Inr (cm_count ytest predicted l0 l0)"
    by (simp_all add: cm_at_def)
  have "cm_count ytest predicted l1 l1 + cm_count ytest predicted l0 l0
        = int (length (filter (\<lambda>(t, p). t = p) (zip ytest predicted)))"
    unfolding cm_count_def
    using pair_counts_diag [OF ls(2) zip_in_labels [OF ls(3)]] by linarith
  also have "length (filter (\<lambda>(t, p). t = p) (zip ytest predicted))
        = length (filter (\<lambda>(p, t). p = t) (zip predicted ytest))"
    using len
  proof (induction ytest predicted rule: list_induct2)
    case Nil then show ?case by simp
  next
    case (Cons x xs y ys) then show ?case by auto
  qed
  also have "int \<dots> = sum_list (compare_lists predicted ytest)"
    using len by (simp add: compare_lists_count)
  finally have num: "cm_count ytest predicted l1 l1 + cm_count ytest predicted l0 l0
        = sum_list (compare_lists predicted ytest)" .
  from ls(3) len have ne: "predicted \<noteq> []"
    by auto
  have "fm_test_acc attr_forest_CM (length predicted)
        = Inr (mark_accuracy (compare_lists predicted ytest))"
    using len
    by (simp add: fm_test_acc_def tp tn num mark_accuracy_def true_div_def compare_lists_count)
  moreover have "mark_accuracy (compare_lists predicted ytest)
        = Some (of_nat (length (filter (\<lambda>(p, y). p = y) (zip predicted ytest)))
                / of_nat (length predicted))"
    using len ne by (simp add: mark_accuracy_def true_div_def compare_lists_count)
  moreover have "recodedpreds predicted ytest = Inr (compare_lists predicted ytest)"
    using len by (simp add: recodedpreds_marks)
  ultimately show ?thesis by simp
qed

theorem accuracy_from_confusion_matrix_witness:
  "confusion_matrix [''No'', ''Yes'', ''No'', ''No''] [''No'', ''No'', ''Yes'', ''No'']
     = Inr [[2, 1], [1, 0]]
   \<and> length [[2, 1], [1, 0::int]] = 2
   \<and> fm_test_acc [[2, 1], [1, 0]] 4 = Inr (Some (1 / 2))
   \<and> mark_accuracy (compare_lists [''No'', ''No'', ''Yes'', ''No''] [''No'', ''Yes'', ''No'', ''No''])
     = Some (1 / 2)"
proof -
  have h1: "confusion_matrix [''No'', ''Yes'', ''No'', ''No''] [''No'', ''No'', ''Yes'', ''No'']
     = Inr [[2, 1], [1, 0]]"
    by code_simp
  have h2: "length [[2, 1], [1, 0::int]] = 2"
    by simp
  have h3: "mark_accuracy (compare_lists [''No'', ''No'', ''Yes'', ''No''] [''No'', ''Yes'', ''No'', ''No''])
     = Some (1 / 2)"
    by code_simp
  have h4: "length [''No'', ''No'', ''Yes'', ''No''] = 4"
    by simp
  from accuracy_from_confusion_matrix [OF h1 h2]
  have "fm_test_acc [[2, 1], [1, 0]] 4 = Inr (Some (1 / 2))"
    unfolding h3 h4 by simp
  with h1 h2 h3 show ?thesis by simp
qed

subsection \<open>Entries of the confusion matrix\<close>

text \<open>
  For label vectors of one length the matrix is square, with one row and one column
  for each label that occurs among the actual and the predicted labels; its entries are
  non-negative and sum to the number of samples. With two labels it has four entries.
\<close>

lemma confusion_matrix_entries:
  assumes len: "length predicted = length ytest"
  shows "\<exists>cm. confusion_matrix ytest predicted = Inr cm
           \<and> length cm = card (set ytest \<union> set predicted)
           \<and> (\<forall>row \<in> set cm. length row = card (set ytest \<union> set predicted))
           \<and> (\<forall>row \<in> set cm. \<forall>e \<in> set row. 0 \<le> e)
           \<and> sum_list (concat cm) = int (length ytest)
           \<and> (card (set ytest \<union> set predicted) = 2 \<longrightarrow> length (concat cm) = 4)"
proof -
  define L where "L = unique_labels ytest predicted"
  define cm where "cm = map (\<lambda>a. map (\<lambda>b. cm_count ytest predicted a b) L) L"
  have c: "confusion_matrix ytest predicted = Inr cm"
    using len by (simp add: confusion_matrix_def cm_def L_def Let_def)
  have n: "length L = card (set ytest \<union> set predicted)"
    by (simp add: L_def unique_labels_props)
  have rows: "length cm = card (set ytest \<union> set predicted)"
    by (simp add: cm_def n)
  have cols: "\<forall>row \<in> set cm. length row = card (set ytest \<union> set predicted)"
    by (auto simp: cm_def n)
  have nonneg: "\<forall>row \<in> set cm. \<forall>e \<in> set row. 0 \<le> e"
    by (auto simp: cm_def cm_count_def)
  have "sum_list (concat cm) = (\<Sum>a\<in>set L. \<Sum>b\<in>set L. cm_count ytest predicted a b)"
    unfolding cm_def by (rule sum_list_matrix) (simp add: L_def unique_labels_props)
  also have "\<dots> = int (length (zip ytest predicted))"
    unfolding cm_count_def
  proof (rule pair_counts_total)
    show "finite (set L)" by simp
    show "\<forall>(t, p) \<in> set (zip ytest predicted). t \<in> set L \<and> p \<in> set L"
      by (rule zip_in_labels) (simp add: L_def unique_labels_props)
  qed
  finally have total: "sum_list (concat cm) = int (length ytest)"
    using len by simp
  have size: "length (concat cm) = card (set ytest \<union> set predicted) * card (set ytest \<union> set predicted)"
    by (simp add: cm_def length_concat comp_def sum_list_triv n)
  from c rows cols nonneg total size show ?thesis by auto
qed

text \<open>
  Claim C9. For every test set of size \<open>M\<close>, the random-forest confusion matrix has four
  entries, non-negative integers that sum to \<open>M\<close>. The notebook reads the matrix that
  way: its note places TN at 0,0, FP at 0,1, FN at 1,0 and TP at 1,1, and the accuracy
  cell takes \<open>attr_forest_CM[1,1]\<close> and \<open>attr_forest_CM[0,0]\<close>. The call that builds
  the matrix names no labels, though, so the matrix has the labels that happen to occur:
  on a test set on which a single label occurs, actual and predicted, it has one entry,
  and the accuracy cell stops with an \<open>IndexError\<close>.
\<close>

theorem confusion_matrix_single_label:
  "confusion_matrix [''No'', ''No''] [''No'', ''No''] = Inr [[2]]
   \<and> length (concat [[2::int]]) \<noteq> 4
   \<and> fm_test_acc [[2]] 2 = Inl IndexError"
proof -
  have "confusion_matrix [''No'', ''No''] [''No'', ''No''] = Inr [[2]]"
    by code_simp
  moreover have "fm_test_acc [[2]] 2 = Inl IndexError"
    by (simp add: fm_test_acc_def cm_at_def)
  ultimately show ?thesis by simp
qed

subsection \<open>The splitter\<close>

lemma n_test_rows_notebook:
  "n_test_rows 1470 (1 / 5) = 294" "n_test_rows 1470 (1 / 4) = 368"
proof -
  have "nat \<lceil>round_double (round_double (1 / 5) * round_double 1470)\<rceil> = 294"
    by code_simp
  then show "n_test_rows 1470 (1 / 5) = 294"
    by (simp add: n_test_rows_def)
  have "nat \<lceil>round_double (round_double (1 / 4) * round_double 1470)\<rceil> = 368"
    by code_simp
  then show "n_test_rows 1470 (1 / 4) = 368"
    by (simp add: n_test_rows_def)
qed

text \<open>
  The double product, not the exact one, decides the size: 0.07 times 100 is exactly 7,
  the double product is the next double above 7, and the test set has 8 rows.
\<close>

lemma n_test_rows_double_product:
  "n_test_rows 100 (7 / 100) = 8" "nat \<lceil>(7 / 100 :: rat) * 100\<rceil> = 7"
proof -
  have "nat \<lceil>round_double (round_double (7 / 100) * round_double 100)\<rceil> = 8"
    by code_simp
  then show "n_test_rows 100 (7 / 100) = 8"
    by (simp add: n_test_rows_def)
  show "nat \<lceil>(7 / 100 :: rat) * 100\<rceil> = 7"
    by simp
qed

lemma validate_shuffle_split_examples:
  "validate_shuffle_split 1470 (1 / 5) = Inr (1176, 294)"
  "validate_shuffle_split 100 (7 / 100) = Inr (92, 8)"
proof -
  have a: "0 < round_double (1 / 5)" "round_double (1 / 5) < 1"
    by code_simp+
  have b: "\<not> double_overflow (round_double 1470)"
    by code_simp
  show "validate_shuffle_split 1470 (1 / 5) = Inr (1176, 294)"
    using a b by (simp add: validate_shuffle_split_def n_test_rows_notebook Let_def)
  have c: "0 < round_double (7 / 100)" "round_double (7 / 100) < 1"
    by code_simp+
  have d: "\<not> double_overflow (round_double 100)"
    by code_simp
  show "validate_shuffle_split 100 (7 / 100) = Inr (92, 8)"
    using c d by (simp add: validate_shuffle_split_def n_test_rows_double_product Let_def)
qed

lemma permutation_parts:
  assumes p: "sort perm = [0 ..< n]" and k: "k \<le> n"
  shows "set (take k perm) \<inter> set (take (n - k) (drop k perm)) = {}"
    and "set (take k perm) \<union> set (take (n - k) (drop k perm)) = {0 ..< n}"
    and "length (take k perm) = k"
    and "length (take (n - k) (drop k perm)) = n - k"
    and "list_all (\<lambda>i. i < n) (take k perm)"
    and "list_all (\<lambda>i. i < n) (take (n - k) (drop k perm))"
proof -
  from p have d: "distinct perm"
    by (metis distinct_sort distinct_upt)
  from p have s: "set perm = {0 ..< n}"
    by (metis set_sort set_upt)
  from p have l: "length perm = n"
    by (metis length_sort length_upt diff_zero)
  then have full: "take (n - k) (drop k perm) = drop k perm"
    by simp
  have split: "take k perm @ drop k perm = perm"
    by simp
  from d split show "set (take k perm) \<inter> set (take (n - k) (drop k perm)) = {}"
    unfolding full by (metis distinct_append)
  from s split show u: "set (take k perm) \<union> set (take (n - k) (drop k perm)) = {0 ..< n}"
    unfolding full by (metis set_append)
  from l k show "length (take k perm) = k" by simp
  from l k show "length (take (n - k) (drop k perm)) = n - k" by simp
  from u show "list_all (\<lambda>i. i < n) (take k perm)"
    unfolding list_all_iff by auto
  from u show "list_all (\<lambda>i. i < n) (take (n - k) (drop k perm))"
    unfolding list_all_iff by auto
qed


lemma sort_rev_upt: "sort (rev [0 ..< n]) = [0 ..< n]"
  by (rule sorted_distinct_set_unique) simp_all

lemma safe_indexing_in_range:
  assumes "list_all (\<lambda>i. i < length xs) idx"
  shows "safe_indexing xs idx = Inr (map (\<lambda>i. xs ! i) idx)"
  using assms by (simp add: safe_indexing_def)

text \<open>
  Claim C3, as amended. For every dataset of \<open>N\<close> rows (a number that fits a double)
  and every test fraction whose double lies strictly between 0 and 1 and leaves a
  training row, provided the generator delivers a permutation of the row numbers, the
  splitter returns training and test partitions whose row numbers are disjoint and
  together are all the rows (the sizes sum to \<open>N\<close>); the test partition has
  \<open>ceil(fraction * N)\<close> rows, the product being the double-precision one. On 1470 rows
  with fraction 0.2 that is 1176 training rows and 294 test rows.
\<close>

theorem split_partition:
  assumes len: "length X = length y"
    and f: "0 < round_double test_size" "round_double test_size < 1"
    and fits: "\<not> double_overflow (round_double (of_nat (length X)))"
    and train: "n_test_rows (length X) test_size < length X"
    and perm: "sort (permutation np (check_random_state np g random_state) (length X))
               = [0 ..< length X]"
  shows "\<exists>ind_train ind_test.
     shuffle_split np g (length X) test_size random_state = Inr (ind_train, ind_test)
     \<and> train_test_split np g X y test_size random_state
         = Inr (map (\<lambda>i. X ! i) ind_train, map (\<lambda>i. X ! i) ind_test,
                map (\<lambda>i. y ! i) ind_train, map (\<lambda>i. y ! i) ind_test)
     \<and> set ind_train \<inter> set ind_test = {}
     \<and> set ind_train \<union> set ind_test = {0 ..< length X}
     \<and> length ind_train + length ind_test = length X
     \<and> length ind_test = n_test_rows (length X) test_size
     \<and> (length X = 1470 \<and> test_size = 1 / 5
          \<longrightarrow> length ind_train = 1176 \<and> length ind_test = 294)"
proof -
  define n where "n = length X"
  define k where "k = n_test_rows n test_size"
  define p where "p = permutation np (check_random_state np g random_state) n"
  define ind_test where "ind_test = take k p"
  define ind_train where "ind_train = take (n - k) (drop k p)"
  from train have kn: "k \<le> n" and k_lt: "k < n"
    by (simp_all add: k_def n_def)
  from perm have sp: "sort p = [0 ..< n]"
    by (simp add: p_def n_def)
  note parts = permutation_parts [OF sp kn, folded ind_test_def ind_train_def]
  from f have range: "\<not> (round_double test_size \<le> 0 \<or> 1 \<le> round_double test_size)"
    by simp
  from fits have no_overflow: "\<not> double_overflow (round_double (of_nat n))"
    by (simp add: n_def)
  from k_lt have v: "validate_shuffle_split n test_size = Inr (n - k, k)"
    unfolding validate_shuffle_split_def Let_def k_def [symmetric]
    by (simp only: range no_overflow if_False) simp
  then have ss: "shuffle_split np g n test_size random_state = Inr (ind_train, ind_test)"
    by (simp add: shuffle_split_def Let_def p_def ind_train_def ind_test_def)
  have ix: "safe_indexing X ind_train = Inr (map (\<lambda>i. X ! i) ind_train)"
    "safe_indexing X ind_test = Inr (map (\<lambda>i. X ! i) ind_test)"
    "safe_indexing y ind_train = Inr (map (\<lambda>i. y ! i) ind_train)"
    "safe_indexing y ind_test = Inr (map (\<lambda>i. y ! i) ind_test)"
    using parts(5,6) len by (simp_all add: safe_indexing_in_range n_def)
  have tts: "train_test_split np g X y test_size random_state
         = Inr (map (\<lambda>i. X ! i) ind_train, map (\<lambda>i. X ! i) ind_test,
                map (\<lambda>i. y ! i) ind_train, map (\<lambda>i. y ! i) ind_test)"
    using len ss by (simp add: train_test_split_def ix n_def [symmetric])
  have sizes: "length ind_train + length ind_test = n" "length ind_test = k"
    using parts(3,4) kn by simp_all
  have known: "n = 1470 \<and> test_size = 1 / 5 \<longrightarrow> length ind_train = 1176 \<and> length ind_test = 294"
  proof (intro impI, elim conjE)
    assume a1: "n = 1470" and a2: "test_size = 1 / 5"
    have "k = 294" unfolding k_def a1 a2 by (rule n_test_rows_notebook)
    with sizes a1 show "length ind_train = 1176 \<and> length ind_test = 294" by simp
  qed
  from ss tts parts(1,2) sizes known show ?thesis
    unfolding n_def [symmetric] k_def [symmetric] by blast
qed

theorem split_partition_witness:
  "length [0 ..< 1470] = length (replicate 1470 ''No'')
   \<and> 0 < round_double (1 / 5) \<and> round_double (1 / 5) < 1
   \<and> \<not> double_overflow (round_double (of_nat (length [0 ..< 1470])))
   \<and> n_test_rows (length [0 ..< 1470]) (1 / 5) < length [0 ..< 1470]
   \<and> (\<exists>ind_train ind_test.
        shuffle_split reversing_generator (7::int)
            (length [0 ..< 1470]) (1 / 5) (Some 0) = Inr (ind_train, ind_test)
        \<and> set ind_train \<inter> set ind_test = {}
        \<and> set ind_train \<union> set ind_test = {0 ..< 1470}
        \<and> length ind_train = 1176 \<and> length ind_test = 294)"
proof -
  have l: "length [0 ..< 1470] = 1470" by simp
  have h1: "length [0 ..< 1470] = length (replicate 1470 ''No'')" by simp
  have h2: "0 < round_double (1 / 5)" by code_simp
  have h3: "round_double (1 / 5) < 1" by code_simp
  have "\<not> double_overflow (round_double 1470)" by code_simp
  then have h4: "\<not> double_overflow (round_double (of_nat (length [0 ..< 1470])))"
    unfolding l by simp
  have h5: "n_test_rows (length [0 ..< 1470]) (1 / 5) < length [0 ..< 1470]"
    unfolding l n_test_rows_notebook by simp
  have h6: "sort (permutation reversing_generator
        (check_random_state reversing_generator (7::int) (Some 0))
        (length [0 ..< 1470])) = [0 ..< length [0 ..< 1470]]"
    by (simp add: reversing_generator_def sort_rev_upt)
  from split_partition [OF h1 h2 h3 h4 h5 h6]
  obtain ind_train ind_test where
    "shuffle_split reversing_generator (7::int)
            (length [0 ..< 1470]) (1 / 5) (Some 0) = Inr (ind_train, ind_test)"
    "set ind_train \<inter> set ind_test = {}"
    "set ind_train \<union> set ind_test = {0 ..< 1470}"
    "length ind_train = 1176 \<and> length ind_test = 294"
    unfolding l by auto
  with h1 h2 h3 h4 h5 show ?thesis unfolding l by blast
qed

text \<open>
  Claim C3 as stated gives the test partition \<open>round(fraction * N)\<close> rows. On five rows
  with fraction 0.25 the splitter returns two test rows, and 1.25 rounds to one (0.25,
  5 and 1.25 are doubles, so nothing is lost in the product).
\<close>

theorem split_test_size_not_round:
  "train_test_split reversing_generator (7::int)
     [10, 11, 12, 13, 14::int] [''No'', ''No'', ''Yes'', ''No'', ''No''] (1 / 4) (Some 0)
   = Inr ([12, 11, 10], [14, 13], [''Yes'', ''No'', ''No''], [''No'', ''No''])
   \<and> length [14, 13::int] \<noteq> nat (round (1 / 4 * of_nat (length [10, 11, 12, 13, 14::int]) :: rat))"
proof -
  have a: "train_test_split reversing_generator (7::int)
     [10, 11, 12, 13, 14::int] [''No'', ''No'', ''Yes'', ''No'', ''No''] (1 / 4) (Some 0)
   = Inr ([12, 11, 10], [14, 13], [''Yes'', ''No'', ''No''], [''No'', ''No''])"
    by code_simp
  have b: "round (1 / 4 * of_nat (length [10, 11, 12, 13, 14::int]) :: rat) = 1"
    by code_simp
  show ?thesis unfolding b using a by simp
qed

text \<open>
  Claim C4. The splitter is deterministic: two runs on the same dataset with the same
  seed and the same test fraction return the same partitions, whatever state NumPy's
  global generator is in at either run.
\<close>

theorem split_deterministic:
  "train_test_split np g1 X y test_size (Some seed) = train_test_split np g2 X y test_size (Some seed)"
proof -
  have "check_random_state np g1 (Some seed) = check_random_state np g2 (Some seed)"
    by (simp add: check_random_state_def)
  then have "shuffle_split np g1 (length X) test_size (Some seed)
             = shuffle_split np g2 (length X) test_size (Some seed)"
    unfolding shuffle_split_def by (simp only:)
  then show ?thesis
    unfolding train_test_split_def by (simp only:)
qed

text \<open>
  Without a seed the partitions do depend on the state of the global generator; the
  notebook passes \<open>random_state = 0\<close> to both of its calls.
\<close>

lemma split_unseeded_depends_on_state:
  "train_test_split
     two_state_generator
     (0::int) [10, 11, 12, 13::int] [''No'', ''No'', ''Yes'', ''No''] (1 / 4) None
   \<noteq> train_test_split
     two_state_generator
     (1::int) [10, 11, 12, 13::int] [''No'', ''No'', ''Yes'', ''No''] (1 / 4) None"
  by code_simp

subsection \<open>The feature classifier\<close>

lemma objcols_subset: "set (objcols df) \<subseteq> set (columns df)"
  by (auto simp: objcols_def)

lemma classify_columns_result:
  "classify_columns df =
     (if set catcols \<subseteq> set (columns df)
      then Inr \<lparr>shown_overlap = overlap df,
                selected = map (\<lambda>c. (c, the (map_of df c))) (objcols df @ catcols),
                numerical = empattr_numerical_cols df\<rparr>
      else Inl KeyError)"
proof -
  have "list_all (\<lambda>c. c \<in> set (columns df)) (objcols df @ catcols)
        \<longleftrightarrow> set catcols \<subseteq> set (columns df)"
    using objcols_subset [of df] by (auto simp: list_all_iff)
  then show ?thesis
    by (simp add: classify_columns_def getitem_list_def Let_def)
qed

text \<open>
  Claim C5, as amended. The feature classifier computes the intersection of the
  object-typed and the declared-categorical column sets and displays it; it asserts
  nothing about it. Whenever the declared-categorical columns are all columns of the
  table, the run goes on, whether the intersection is empty or not. (What stops the run
  is a declared-categorical column missing from the table, as \<open>classify_columns_result\<close>
  shows.)
\<close>

theorem classifier_proceeds:
  assumes "set catcols \<subseteq> set (columns empattr_table)"
  shows "\<exists>r. classify_columns empattr_table = Inr r
             \<and> shown_overlap r = set (objcols empattr_table) \<inter> set catcols"
  using assms by (simp add: classify_columns_result overlap_def)

theorem classifier_proceeds_witness:
  "set catcols \<subseteq> set (columns sample_education_text)
   \<and> set (objcols sample_education_text) \<inter> set catcols = {''Education''}
   \<and> (\<exists>r. classify_columns sample_education_text = Inr r
          \<and> shown_overlap r = {''Education''})"
proof -
  have h: "set catcols \<subseteq> set (columns sample_education_text)"
    by code_simp
  have o: "set (objcols sample_education_text) \<inter> set catcols = {''Education''}"
    by code_simp
  from classifier_proceeds [OF h] o h show ?thesis by simp
qed

text \<open>
  Claim C5 as stated has the run report a validation failure whenever the intersection
  is not empty. On a table whose \<open>Education\<close> column holds strings the intersection is
  \<open>{Education}\<close> and the classifier's cells run to their end.
\<close>

theorem classifier_overlap_not_reported:
  "overlap sample_education_text = {''Education''}
   \<and> \<not> isl (classify_columns sample_education_text)"
  by code_simp

text \<open>
  Claim C6, as amended. For a loaded table that has the declared-categorical columns,
  none of them object-typed, the object-typed, declared-categorical and numerical
  column sets are pairwise disjoint and their union is the full column set. The
  response column \<open>Attrition\<close> is not taken out: holding strings, it is one of the
  object-typed columns.
\<close>

theorem column_classes:
  assumes cat: "set catcols \<subseteq> set (columns empattr_table)"
    and disj: "overlap empattr_table = {}"
  shows "set (objcols empattr_table) \<inter> set catcols = {}
       \<and> set (objcols empattr_table) \<inter> empattr_numerical_cols empattr_table = {}
       \<and> set catcols \<inter> empattr_numerical_cols empattr_table = {}
       \<and> set (objcols empattr_table) \<union> set catcols \<union> empattr_numerical_cols empattr_table
           = set (columns empattr_table)
       \<and> (getitem empattr_table ''Attrition'' = Inr (ObjCol vs)
            \<longrightarrow> ''Attrition'' \<in> set (objcols empattr_table))"
proof -
  have a: "set (objcols empattr_table) \<inter> set catcols = {}"
    using disj by (simp add: overlap_def)
  have b: "set (objcols empattr_table) \<inter> empattr_numerical_cols empattr_table = {}"
    and c: "set catcols \<inter> empattr_numerical_cols empattr_table = {}"
    by (auto simp: empattr_numerical_cols_def)
  have d: "set (objcols empattr_table) \<union> set catcols \<union> empattr_numerical_cols empattr_table
           = set (columns empattr_table)"
    using cat objcols_subset [of empattr_table] by (auto simp: empattr_numerical_cols_def)
  have e: "getitem empattr_table ''Attrition'' = Inr (ObjCol vs)
            \<longrightarrow> ''Attrition'' \<in> set (objcols empattr_table)"
  proof
    assume "getitem empattr_table ''Attrition'' = Inr (ObjCol vs)"
    then have m: "map_of empattr_table ''Attrition'' = Some (ObjCol vs)"
      by (simp add: getitem_def split: option.splits)
    then have "''Attrition'' \<in> set (columns empattr_table)"
      by (auto simp: columns_def dest: map_of_SomeD intro: rev_image_eqI)
    with m show "''Attrition'' \<in> set (objcols empattr_table)"
      by (simp add: objcols_def)
  qed
  from a b c d e show ?thesis by blast
qed

theorem column_classes_witness:
  "set catcols \<subseteq> set (columns sample_empattr) \<and> overlap sample_empattr = {}
   \<and> getitem sample_empattr ''Attrition'' = Inr (ObjCol [''Yes'', ''No'', ''Yes'', ''No''])
   \<and> set (objcols sample_empattr) \<inter> set catcols = {}
   \<and> set (objcols sample_empattr) \<union> set catcols \<union> empattr_numerical_cols sample_empattr
       = set (columns sample_empattr)
   \<and> ''Attrition'' \<in> set (objcols sample_empattr)"
proof -
  have h1: "set catcols \<subseteq> set (columns sample_empattr)" by code_simp
  have h2: "overlap sample_empattr = {}" by code_simp
  have h3: "getitem sample_empattr ''Attrition'' = Inr (ObjCol [''Yes'', ''No'', ''Yes'', ''No''])"
    by code_simp
  from column_classes [OF h1 h2, of "[''Yes'', ''No'', ''Yes'', ''No'']"] h1 h2 h3
  show ?thesis by blast
qed

text \<open>
  Claim C6 as stated has the union equal the column set without the response column.
  On the sample table the union contains \<open>Attrition\<close>.
\<close>

theorem column_classes_include_response:
  "set (objcols sample_empattr) \<union> set catcols \<union> empattr_numerical_cols sample_empattr
     \<noteq> set (columns sample_empattr) - {''Attrition''}
   \<and> ''Attrition'' \<in> set (objcols sample_empattr)"
  by code_simp

subsection \<open>The encoder\<close>

lemma encode_loop_frame:
  assumes "encode_loop cs a st = Inr st'"
  shows "length st' = length st \<and> (\<forall>b. b \<noteq> a \<longrightarrow> st' ! b = st ! b)"
  using assms
proof (induction cs arbitrary: st)
  case Nil
  then show ?case by simp
next
  case (Cons c cs)
  from Cons.prems obtain col where
    "encode_loop cs a (st[a := setitem (st ! a) c (fit_transform col)]) = Inr st'"
    by (auto elim: py_bind_Inr)
  from Cons.IH [OF this] show ?case by simp
qed

lemma cell_copy_Inr:
  assumes "cell_copy k = Inr k1"
  shows "empattr k < length (store k)"
    and "k1 = k\<lparr>store := store k @ [store k ! empattr k], newdf := Some (length (store k))\<rparr>"
  using assms by (auto simp: cell_copy_def deref_def split: if_splits)

lemma cell_drop_Inr:
  assumes "cell_drop k = Inr k2" and "newdf k = Some a"
  obtains dropped where "a < length (store k)"
    "drop_columns (store k ! a) [''EmployeeCount'', ''StandardHours''] = Inr dropped"
    "k2 = k\<lparr>store := store k @ [dropped], newdf := Some (length (store k))\<rparr>"
  using assms by (auto simp: cell_drop_def deref_def split: if_splits elim!: py_bind_Inr)

lemma cell_encode_Inr:
  assumes "cell_encode ocs k = Inr k'" and "newdf k = Some a"
  obtains st where "a < length (store k)"
    "encode_loop (catcols @ ocs) a (store k) = Inr st" "k' = k\<lparr>store := st\<rparr>"
  using assms by (auto simp: cell_encode_def Let_def split: if_splits elim!: py_bind_Inr)

lemma full_feature_encoding_Inr:
  assumes "full_feature_encoding k = Inr k'"
  obtains dropped st where
    "empattr k < length (store k)"
    "drop_columns (store k ! empattr k) [''EmployeeCount'', ''StandardHours''] = Inr dropped"
    "encode_loop (catcols @ objcols (store k ! empattr k)) (Suc (length (store k)))
       (store k @ [store k ! empattr k, dropped]) = Inr st"
    "k' = k\<lparr>store := st, newdf := Some (Suc (length (store k)))\<rparr>"
proof -
  from assms obtain df k1 k2 where
    d: "deref k (Some (empattr k)) = Inr df" and c: "cell_copy k = Inr k1"
    and dr: "cell_drop k1 = Inr k2" and en: "cell_encode (objcols df) k2 = Inr k'"
    unfolding full_feature_encoding_def by (auto elim!: py_bind_Inr)
  note k1 = cell_copy_Inr [OF c]
  from d k1(1) have df: "df = store k ! empattr k"
    by (simp add: deref_def)
  have n1: "newdf k1 = Some (length (store k))"
    by (simp add: k1(2))
  from cell_drop_Inr [OF dr n1] obtain dropped where
    dd: "drop_columns (store k1 ! length (store k)) [''EmployeeCount'', ''StandardHours''] = Inr dropped"
    and k2: "k2 = k1\<lparr>store := store k1 @ [dropped], newdf := Some (length (store k1))\<rparr>"
    by blast
  have s1: "store k1 = store k @ [store k ! empattr k]"
    by (simp add: k1(2))
  have n2: "newdf k2 = Some (Suc (length (store k)))"
    by (simp add: k2 s1)
  have s2: "store k2 = store k @ [store k ! empattr k, dropped]"
    by (simp add: k2 s1)
  from cell_encode_Inr [OF en n2] obtain st where
    e: "encode_loop (catcols @ objcols df) (Suc (length (store k))) (store k2) = Inr st"
    and k': "k' = k2\<lparr>store := st\<rparr>"
    by blast
  show ?thesis
  proof (rule that [OF k1(1)])
    from dd show "drop_columns (store k ! empattr k) [''EmployeeCount'', ''StandardHours''] = Inr dropped"
      by (simp add: s1)
    from e show "encode_loop (catcols @ objcols (store k ! empattr k)) (Suc (length (store k)))
       (store k @ [store k ! empattr k, dropped]) = Inr st"
      by (simp add: s2 df)
    show "k' = k\<lparr>store := st, newdf := Some (Suc (length (store k)))\<rparr>"
      by (simp add: k' k2 k1(2))
  qed
qed

text \<open>
  Claim C8. The encoder replaces columns by integer codes in a working copy only: when
  the cells of the full-feature path have run, the object named \<open>empattr\<close> is the one
  it was after loading, with every column as it was, and \<open>newdf\<close> names another
  object.
\<close>

theorem encoder_leaves_loaded_table:
  assumes "full_feature_encoding k = Inr k'"
  shows "empattr k' = empattr k
       \<and> deref k' (Some (empattr k')) = Inr (store k ! empattr k)
       \<and> deref k (Some (empattr k)) = Inr (store k ! empattr k)
       \<and> newdf k' \<noteq> Some (empattr k')"
proof -
  from assms obtain dropped st where
    a: "empattr k < length (store k)"
    and e: "encode_loop (catcols @ objcols (store k ! empattr k)) (Suc (length (store k)))
       (store k @ [store k ! empattr k, dropped]) = Inr st"
    and k': "k' = k\<lparr>store := st, newdf := Some (Suc (length (store k)))\<rparr>"
    by (rule full_feature_encoding_Inr)
  from encode_loop_frame [OF e] a
  have len: "length st = length (store k) + 2"
    and same: "st ! empattr k = (store k @ [store k ! empattr k, dropped]) ! empattr k"
    by auto
  from a have "(store k @ [store k ! empattr k, dropped]) ! empattr k = store k ! empattr k"
    by (simp add: nth_append)
  with same len a k' show ?thesis
    by (auto simp: deref_def)
qed

theorem encoder_leaves_loaded_table_witness:
  "\<exists>k'. full_feature_encoding (loaded sample_empattr) = Inr k'
     \<and> deref k' (Some (empattr k')) = Inr sample_empattr
     \<and> newdf k' \<noteq> Some (empattr k')"
proof -
  have "\<not> isl (full_feature_encoding (loaded sample_empattr))"
    by code_simp
  then obtain k' where k': "full_feature_encoding (loaded sample_empattr) = Inr k'"
    by (cases "full_feature_encoding (loaded sample_empattr)") simp_all
  have l: "store (loaded sample_empattr) ! empattr (loaded sample_empattr) = sample_empattr"
    by (simp add: loaded_def)
  from encoder_leaves_loaded_table [OF k'] l k' show ?thesis
    by auto
qed

text \<open>
  The copy matters: had \<open>newdf\<close> named the loaded object itself, the loop would have
  replaced the loaded table's columns.
\<close>

lemma encoding_in_place_changes_alias:
  "py_bind (cell_encode (objcols sample_empattr) ((loaded sample_empattr)\<lparr>newdf := Some 0\<rparr>))
     (\<lambda>k. getitem (store k ! empattr k) ''Attrition'') = Inr (IntCol [1, 0, 1, 0])"
  by code_simp

subsection \<open>The response of the full-feature path\<close>

lemma map_of_setitem:
  "map_of (setitem df c new) x
   = (if x = c then map_option (\<lambda>old. new) (map_of df c) else map_of df x)"
  by (induction df) (auto simp: setitem_def)

lemma map_of_drop_columns:
  assumes "drop_columns df cs = Inr dropped" "x \<notin> set cs"
  shows "map_of dropped x = map_of df x"
proof -
  from assms(1) have d: "dropped = filter (\<lambda>(n, col). n \<notin> set cs) df"
    by (simp add: drop_columns_def split: if_splits)
  show ?thesis unfolding d using assms(2)
    by (induction df) auto
qed

lemma encode_loop_append:
  "encode_loop (xs @ ys) a st = py_bind (encode_loop xs a st) (encode_loop ys a)"
proof (induction xs arbitrary: st)
  case Nil
  then show ?case by simp
next
  case (Cons x xs)
  show ?case
    by (cases "getitem (st ! a) x") (simp_all add: Cons.IH)
qed

lemma encode_loop_other:
  assumes "encode_loop cs a st = Inr st'" "c \<notin> set cs" "a < length st"
  shows "map_of (st' ! a) c = map_of (st ! a) c"
  using assms
proof (induction cs arbitrary: st)
  case Nil
  then show ?case by simp
next
  case (Cons x cs)
  from Cons.prems(1) obtain col where
    r: "encode_loop cs a (st[a := setitem (st ! a) x (fit_transform col)]) = Inr st'"
    by (auto elim: py_bind_Inr)
  from Cons.prems have "c \<noteq> x" "c \<notin> set cs" by auto
  with Cons.IH [OF r] Cons.prems(3) show ?case
    by (simp add: map_of_setitem)
qed

lemma encode_loop_once:
  assumes run: "encode_loop (xs @ c # ys) a st = Inr st'"
    and fresh: "c \<notin> set xs" "c \<notin> set ys"
    and a: "a < length st"
    and col: "map_of (st ! a) c = Some col"
  shows "map_of (st' ! a) c = Some (fit_transform col)"
proof -
  from run obtain s1 where x: "encode_loop xs a st = Inr s1"
    and rest: "encode_loop (c # ys) a s1 = Inr st'"
    unfolding encode_loop_append by (auto elim: py_bind_Inr)
  from encode_loop_frame [OF x] a have a1: "a < length s1" by simp
  from encode_loop_other [OF x fresh(1) a] col have c1: "map_of (s1 ! a) c = Some col"
    by simp
  then have g: "getitem (s1 ! a) c = Inr col"
    by (simp add: getitem_def)
  from rest g have y: "encode_loop ys a (s1[a := setitem (s1 ! a) c (fit_transform col)]) = Inr st'"
    by simp
  from encode_loop_other [OF y fresh(2)] a1 c1 show ?thesis
    by (simp add: map_of_setitem)
qed

lemma No_le_Yes: "''No'' \<le> ''Yes''"
  by code_simp

lemma Attrition_not_declared: "''Attrition'' \<notin> set catcols"
  by code_simp

lemma Attrition_not_dropped: "''Attrition'' \<notin> set [''EmployeeCount'', ''StandardHours'']"
  by code_simp

lemma label_codes_Attrition:
  assumes "set ys = {''No'', ''Yes''}"
  shows "label_codes ys = map (\<lambda>v. if v = ''Yes'' then 1 else 0) ys"
proof -
  have "sorted (sort (remdups ys))" "distinct (sort (remdups ys))"
    "set (sort (remdups ys)) = {''No'', ''Yes''}"
    using assms by simp_all
  moreover have "sorted [''No'', ''Yes'']" "distinct [''No'', ''Yes'']"
    "set [''No'', ''Yes''] = {''No'', ''Yes''}"
    using No_le_Yes by simp_all
  ultimately have classes: "sort (remdups ys) = [''No'', ''Yes'']"
    by (metis sorted_distinct_set_unique)
  have "\<And>v. v \<in> set ys \<Longrightarrow> int (index_of [''No'', ''Yes''] v) = (if v = ''Yes'' then 1 else 0)"
    using assms by auto
  then show ?thesis
    unfolding label_codes_def Let_def classes by (intro map_cong) simp_all
qed

lemma objcols_distinct: "distinct (columns df) \<Longrightarrow> distinct (objcols df)"
  by (simp add: objcols_def)

lemma object_column_listed:
  assumes "map_of df c = Some (ObjCol vs)"
  shows "c \<in> set (objcols df)"
proof -
  from assms have "c \<in> set (columns df)"
    by (auto simp: columns_def dest: map_of_SomeD intro: rev_image_eqI)
  with assms show ?thesis by (simp add: objcols_def)
qed


lemma newPreds_without_response:
  assumes "newPreds k = Inr df"
  shows "''Attrition'' \<notin> set (columns df)"
  using assms by (auto simp: newPreds_def columns_def elim!: py_bind_Inr)

text \<open>
  Claim C10, as amended. In the full-feature path the encoder is applied to the response
  column \<open>Attrition\<close> as well as to the predictors: \<open>Attrition\<close> holds strings, so it
  is one of the object-typed columns that are recoded. The response the L1 logistic
  regression is fitted to is therefore the label-encoded column, \<open>No\<close> as 0 and \<open>Yes\<close>
  as 1 when both values occur. That is the numbering the notebook's threshold path uses
  (it reads 0 as \<open>No\<close> and anything else as \<open>Yes\<close>), and the opposite of the R
  script's \<open>recode_y\<close>.
\<close>

theorem response_is_label_encoded:
  assumes run: "full_feature_encoding k = Inr k'"
    and dist: "distinct (columns (store k ! empattr k))"
    and attr: "getitem (store k ! empattr k) ''Attrition'' = Inr (ObjCol ys)"
    and both: "set ys = {''No'', ''Yes''}"
  shows "''Attrition'' \<in> set (catcols @ objcols (store k ! empattr k))
       \<and> newY k' = Inr (IntCol (map (\<lambda>v. if v = ''Yes'' then 1 else 0) ys))
       \<and> predictions_results_recoded (map (\<lambda>v. if v = ''Yes'' then 1 else 0) ys) = ys
       \<and> map (\<lambda>v. if v = ''Yes'' then 1 else 0) ys = map (\<lambda>v. 1 - recode_y v) ys"
proof -
  define df0 where "df0 = store k ! empattr k"
  define a2 where "a2 = Suc (length (store k))"
  from run obtain dropped st where
    d: "drop_columns df0 [''EmployeeCount'', ''StandardHours''] = Inr dropped"
    and e: "encode_loop (catcols @ objcols df0) a2 (store k @ [df0, dropped]) = Inr st"
    and k': "k' = k\<lparr>store := st, newdf := Some a2\<rparr>"
    unfolding df0_def a2_def by (rule full_feature_encoding_Inr)
  from attr have m0: "map_of df0 ''Attrition'' = Some (ObjCol ys)"
    by (simp add: getitem_def df0_def split: option.splits)
  then have listed: "''Attrition'' \<in> set (objcols df0)"
    by (rule object_column_listed)
  then obtain us vs where split: "objcols df0 = us @ ''Attrition'' # vs"
    by (auto dest: split_list)
  from dist have "distinct (objcols df0)"
    unfolding df0_def by (rule objcols_distinct)
  with split have fresh: "''Attrition'' \<notin> set us" "''Attrition'' \<notin> set vs"
    by auto
  have a: "a2 < length (store k @ [df0, dropped])"
    by (simp add: a2_def)
  have pos: "(store k @ [df0, dropped]) ! a2 = dropped"
    by (simp add: a2_def nth_append)
  from map_of_drop_columns [OF d Attrition_not_dropped] m0
  have m2: "map_of ((store k @ [df0, dropped]) ! a2) ''Attrition'' = Some (ObjCol ys)"
    by (simp add: pos)
  from e split have e': "encode_loop ((catcols @ us) @ ''Attrition'' # vs) a2
      (store k @ [df0, dropped]) = Inr st"
    by simp
  from fresh(1) Attrition_not_declared have fresh1: "''Attrition'' \<notin> set (catcols @ us)"
    by simp
  from encode_loop_once [OF e' fresh1 fresh(2) a m2]
  have coded: "map_of (st ! a2) ''Attrition'' = Some (IntCol (label_codes ys))"
    by simp
  from encode_loop_frame [OF e] a have "a2 < length st"
    by simp
  with coded k' have y: "newY k' = Inr (IntCol (label_codes ys))"
    by (simp add: newY_def deref_def getitem_def)
  have decoded: "predictions_results_recoded (map (\<lambda>v. if v = ''Yes'' then 1 else 0) ys) = ys"
    unfolding predictions_results_recoded_def map_map
    using both by (intro map_idI) auto
  have opp: "map (\<lambda>v. if v = ''Yes'' then 1 else 0) ys = map (\<lambda>v. 1 - recode_y v) ys"
    using both by (intro map_cong) (auto simp: recode_y_def)
  from y have y': "newY k' = Inr (IntCol (map (\<lambda>v. if v = ''Yes'' then 1 else 0) ys))"
    by (simp only: label_codes_Attrition [OF both])
  from listed have listed': "''Attrition'' \<in> set (catcols @ objcols (store k ! empattr k))"
    by (simp add: df0_def)
  from listed' y' decoded opp show ?thesis
    by (intro conjI)
qed

theorem response_is_label_encoded_witness:
  "distinct (columns sample_empattr)
   \<and> getitem sample_empattr ''Attrition'' = Inr (ObjCol [''Yes'', ''No'', ''Yes'', ''No''])
   \<and> set [''Yes'', ''No'', ''Yes'', ''No''] = {''No'', ''Yes''}
   \<and> (\<exists>k'. full_feature_encoding (loaded sample_empattr) = Inr k'
          \<and> newY k' = Inr (IntCol [1, 0, 1, 0]))"
proof -
  have l: "store (loaded sample_empattr) ! empattr (loaded sample_empattr) = sample_empattr"
    by (simp add: loaded_def)
  have "\<not> isl (full_feature_encoding (loaded sample_empattr))"
    by code_simp
  then obtain k' where h1: "full_feature_encoding (loaded sample_empattr) = Inr k'"
    by (cases "full_feature_encoding (loaded sample_empattr)") simp_all
  have h2: "distinct (columns sample_empattr)"
    by code_simp
  have h3: "getitem sample_empattr ''Attrition'' = Inr (ObjCol [''Yes'', ''No'', ''Yes'', ''No''])"
    by code_simp
  have h4: "set [''Yes'', ''No'', ''Yes'', ''No''] = {''No'', ''Yes''}"
    by auto
  have h2': "distinct (columns (store (loaded sample_empattr) ! empattr (loaded sample_empattr)))"
    unfolding l by (rule h2)
  have h3': "getitem (store (loaded sample_empattr) ! empattr (loaded sample_empattr)) ''Attrition''
      = Inr (ObjCol [''Yes'', ''No'', ''Yes'', ''No''])"
    unfolding l by (rule h3)
  from response_is_label_encoded [OF h1 h2' h3' h4]
  have "newY k' = Inr (IntCol [1, 0, 1, 0])"
    by simp
  with h1 h2 h3 h4 show ?thesis by blast
qed

text \<open>
  Claim C10 as stated calls this a third label convention, used by neither of the other
  two paths. The codes of the sample table's response, read the way the notebook's
  threshold path reads its labels, are the response column again.
\<close>

theorem response_convention_shared:
  "py_bind (full_feature_encoding (loaded sample_empattr)) newY = Inr (IntCol [1, 0, 1, 0])
   \<and> getitem sample_empattr ''Attrition'' = Inr (ObjCol [''Yes'', ''No'', ''Yes'', ''No''])
   \<and> predictions_results_recoded [1, 0, 1, 0] = [''Yes'', ''No'', ''Yes'', ''No'']"
  by code_simp

subsection \<open>Thresholding\<close>

text \<open>
  Claim C1. Both scripts cut a fitted probability at 0.5, with opposite labels: for
  every probability \<open>p\<close>, the R script's \<open>assign_label p 0.5\<close> is 1 when
  \<open>p > 0.5\<close> and 0 otherwise, the notebook's lambda gives 0 when \<open>p > 0.5\<close> and 1
  otherwise; so a probability strictly above the threshold gets opposite numeric labels
  from the two scripts. (So does one at or below it: the notebook's labels are the R
  script's labels subtracted from 1, along the whole vector.)
\<close>

theorem threshold_labels_opposite:
  "assign_label p 0.5 = (if p > 0.5 then 1 else 0)
   \<and> predictions_label p = (if p > 0.5 then 0 else 1)
   \<and> (p > 0.5 \<longrightarrow> assign_label p 0.5 = 1 \<and> predictions_label p = 0
                    \<and> assign_label p 0.5 \<noteq> predictions_label p)
   \<and> predictions_results ps = map (\<lambda>label. 1 - label) (recoded_fitted ps)"
  by (simp add: assign_label_def predictions_label_def th_def
      predictions_results_def recoded_fitted_def)

theorem threshold_labels_opposite_witness:
  "(0.7::real) > 0.5 \<and> assign_label 0.7 0.5 = 1 \<and> predictions_label 0.7 = 0
   \<and> assign_label 0.7 0.5 \<noteq> predictions_label 0.7
   \<and> recoded_fitted [0.7, 0.3] = [1, 0] \<and> predictions_results [0.7, 0.3] = [0, 1]"
proof -
  have r: "recoded_fitted [0.7, 0.3] = [1, 0]"
    by (simp add: recoded_fitted_def assign_label_def)
  from threshold_labels_opposite [of "0.7" "[0.7, 0.3]"] r show ?thesis
    by simp
qed

subsection \<open>Label recoding in the R script\<close>

text \<open>
  Claim C7. \<open>recode_y\<close> is a bijection from the Attrition domain \<open>{Yes, No}\<close> onto
  \<open>{0, 1}\<close> that sends No to 1 and Yes to 0, and the recoded column is as long as the
  column it was computed from.
\<close>

theorem recode_y_bijection:
  "bij_betw recode_y {''Yes'', ''No''} {0, 1}
   \<and> recode_y ''No'' = 1 \<and> recode_y ''Yes'' = 0
   \<and> length (Attrition2 attrition) = length attrition"
proof -
  have img: "recode_y ` {''Yes'', ''No''} = {0, 1}"
    by (simp add: recode_y_def)
  have inj: "inj_on recode_y {''Yes'', ''No''}"
    by (simp add: recode_y_def)
  from inj img have "bij_betw recode_y {''Yes'', ''No''} {0, 1}"
    unfolding bij_betw_def by simp
  then show ?thesis
    by (simp add: recode_y_def Attrition2_def)
qed

end
